theory Spec2Isabelle
  imports Main "HOL-Library.Word"
begin

section \<open>Addresses, faults and the process state\<close>

text \<open>
  Objects live on a heap indexed by addresses; a C++ pointer is an \<open>addr option\<close>
  with \<open>None\<close> for \<open>nullptr\<close>.  Every way a call can fail to return (a null or
  dangling dereference, one of the three assertion macros) is a \<open>fault\<close>; the
  assertions are modelled as checked, as in a debug build.
\<close>

type_synonym addr = nat

datatype fault =
    NullDeref
  | UseAfterFree
  | MOZ_ASSERT_failure
  | MOZ_DIAGNOSTIC_ASSERT_failure
  | MOZ_RELEASE_ASSERT_failure
  | DupRelease
  | OutOfFuel

datatype GeckoProcessType = ParentProcess | ContentProcess | OtherProcess

text \<open>Calls that leave the modelled classes are recorded, in order.\<close>

datatype event =
    RegisterContextRef addr addr
  | UnregisterContextRef addr addr
  | SendAttachBrowsingContext "64 word" "64 word" string
  | SendDetachBrowsingContext "64 word"
  | Unsubscribe "64 word"

text \<open>\<open>enum class State\<close> of \<open>docshell/base/NBrowsingContext.cpp\<close>.\<close>

datatype State = Active | Background | Dead

text \<open>
  The source holds two classes of this name, \<open>dom::BrowsingContext\<close> and
  \<open>mozilla::BrowsingContext\<close>, which the spec describes as one Context.  The
  field they share is the parent pointer.
\<close>

record BrowsingContext_base =
  mParent :: "addr option"

text \<open>
  \<open>dom::BrowsingContext\<close> of \<open>docshell/base/NBrowsingContext.cpp\<close>.  The
  declaration of \<open>mRefCnt\<close> is not part of the source; \<open>nsrefcnt\<close> is taken as
  the 32-bit unsigned integer that the casts to \<open>int32_t\<close> in \<open>AddRef\<close> and
  \<open>Release\<close> read it as.
\<close>

record NBrowsingContext = BrowsingContext_base +
  mRefCnt :: "32 word"
  mState :: State
  mContextSet :: "addr option"
  mLiveChildren :: "addr list"
  mAllChildren :: "addr list"

text \<open>\<open>RelatedContextSet\<close> of \<open>docshell/base/RelatedContextSet.cpp\<close>.\<close>

record RelatedContextSet =
  mUniqueID :: "64 word"
  mContexts :: "addr set"

text \<open>
  The state of one process: the heap of contexts, the heap of context sets, the
  static variables of the three files, what \<open>XRE_GetProcessType\<close>,
  \<open>NS_IsMainThread\<close> and \<open>ContentChild::GetSingleton\<close> answer, and the calls
  made so far.
\<close>

record 'c world =
  heap :: "addr \<rightharpoonup> 'c"
  sets :: "addr \<rightharpoonup> RelatedContextSet"
  sRootBrowsingContexts :: "addr list option"
  sBrowsingContexts :: "(64 word \<rightharpoonup> addr) option"
  sKnownSets :: "(64 word \<rightharpoonup> addr) option"
  sChromeSet :: "addr option"
  processType :: GeckoProcessType
  mainThread :: bool
  contentChild :: bool
  trace :: "event list"

definition XRE_IsContentProcess :: "'c world \<Rightarrow> bool" where
  "XRE_IsContentProcess w = (processType w = ContentProcess)"

definition XRE_IsParentProcess :: "'c world \<Rightarrow> bool" where
  "XRE_IsParentProcess w = (processType w = ParentProcess)"

definition emit :: "event \<Rightarrow> 'c world \<Rightarrow> 'c world" where
  "emit e w = w\<lparr>trace := trace w @ [e]\<rparr>"

text \<open>Sequencing of calls that may fault.\<close>

definition andThen :: "fault + 'a \<Rightarrow> ('a \<Rightarrow> fault + 'b) \<Rightarrow> fault + 'b" where
  "andThen m f = (case m of Inl e \<Rightarrow> Inl e | Inr x \<Rightarrow> f x)"

section \<open>Reference counting of \<open>dom::BrowsingContext\<close>\<close>

text \<open>
  \<open>mContextSet->RegisterContextRef(this)\<close> and \<open>UnregisterContextRef\<close>: the
  pointer is dereferenced, the callee is recorded.
\<close>

definition notifySet ::
  "(addr \<Rightarrow> addr \<Rightarrow> event) \<Rightarrow> NBrowsingContext \<Rightarrow> addr \<Rightarrow> NBrowsingContext world
    \<Rightarrow> fault + NBrowsingContext world" where
  "notifySet call c this w =
     (case mContextSet c of
        None \<Rightarrow> Inl NullDeref
      | Some g \<Rightarrow> (case sets w g of
                    None \<Rightarrow> Inl UseAfterFree
                  | Some _ \<Rightarrow> Inr (emit (call g this) w)))"

text \<open>\<open>BrowsingContext::AddRef\<close>, \<open>NBrowsingContext.cpp\<close> lines 7-21.\<close>

definition AddRef ::
  "NBrowsingContext world \<Rightarrow> addr \<Rightarrow> fault + (NBrowsingContext world \<times> 32 word)" where
  "AddRef w this =
     (case heap w this of
        None \<Rightarrow> Inl UseAfterFree
      | Some c \<Rightarrow>
          if \<not> mainThread w then Inl MOZ_ASSERT_failure
          else if \<not> 0 \<le> sint (mRefCnt c) then Inl MOZ_ASSERT_failure
          else
            let count = mRefCnt c + 1;
                w1 = w\<lparr>heap := (heap w)(this \<mapsto> c\<lparr>mRefCnt := count\<rparr>)\<rparr>
            in if count = 1 \<and> mState c \<noteq> Dead
               then andThen (notifySet RegisterContextRef c this w1) (\<lambda>w2. Inr (w2, count))
               else Inr (w1, count))"

text \<open>
  \<open>delete this\<close>: the destructor \<open>BrowsingContext::~BrowsingContext\<close>,
  \<open>NBrowsingContext.cpp\<close> lines 74-77, which only asserts, and then the release
  of the storage.
\<close>

definition delete_this ::
  "NBrowsingContext world \<Rightarrow> addr \<Rightarrow> fault + NBrowsingContext world" where
  "delete_this w this =
     (case heap w this of
        None \<Rightarrow> Inl UseAfterFree
      | Some c \<Rightarrow>
          if \<not> (XRE_IsContentProcess w \<or> mState c = Dead) then Inl MOZ_ASSERT_failure
          else Inr (w\<lparr>heap := (heap w)(this := None)\<rparr>))"

text \<open>\<open>BrowsingContext::Release\<close>, \<open>NBrowsingContext.cpp\<close> lines 23-42.\<close>

definition Release ::
  "NBrowsingContext world \<Rightarrow> addr \<Rightarrow> fault + (NBrowsingContext world \<times> 32 word)" where
  "Release w this =
     (case heap w this of
        None \<Rightarrow> Inl UseAfterFree
      | Some c \<Rightarrow>
          if \<not> mainThread w then Inl MOZ_ASSERT_failure
          else if \<not> 0 < sint (mRefCnt c) then Inl MOZ_ASSERT_failure
          else
            let count = mRefCnt c - 1;
                w1 = w\<lparr>heap := (heap w)(this \<mapsto> c\<lparr>mRefCnt := count\<rparr>)\<rparr>
            in if count = 0
               then if mState c = Dead
                    then andThen (delete_this w1 this) (\<lambda>w2. Inr (w2, 0))
                    else andThen (notifySet UnregisterContextRef c this w1)
                           (\<lambda>w2. Inr (w2, count))
               else Inr (w1, count))"

section \<open>Dying\<close>

definition deref :: "'c world \<Rightarrow> addr \<Rightarrow> fault + 'c" where
  "deref w a = (case heap w a of None \<Rightarrow> Inl UseAfterFree | Some c \<Rightarrow> Inr c)"

definition store :: "addr \<Rightarrow> 'c \<Rightarrow> 'c world \<Rightarrow> 'c world" where
  "store a c w = w\<lparr>heap := (heap w)(a \<mapsto> c)\<rparr>"

text \<open>A range-based \<open>for\<close> over an array, threading the state and stopping at a fault.\<close>

primrec forEach :: "('w \<Rightarrow> 'a \<Rightarrow> fault + 'w) \<Rightarrow> 'w \<Rightarrow> 'a list \<Rightarrow> fault + 'w" where
  "forEach f w [] = Inr w"
| "forEach f w (x # xs) = andThen (f w x) (\<lambda>w'. forEach f w' xs)"

text \<open>
  \<open>BrowsingContext::DieInternal\<close>, \<open>NBrowsingContext.cpp\<close> lines 54-72.  The
  recursion follows pointers of the heap, so it is given fuel.  \<open>kungFuDeathGrip\<close>
  is an \<open>AddRef\<close> on entry and a \<open>Release\<close> when the scope is left, after the last
  statement; \<open>std::move\<close> leaves \<open>mAllChildren\<close> empty.
\<close>

fun DieInternal ::
  "nat \<Rightarrow> NBrowsingContext world \<Rightarrow> addr \<Rightarrow> fault + NBrowsingContext world" where
  "DieInternal 0 w this = Inl OutOfFuel"
| "DieInternal (Suc n) w this =
     andThen (deref w this) (\<lambda>c.
       if mState c = Dead then Inl MOZ_ASSERT_failure
       else
         andThen (AddRef w this) (\<lambda>(w1, _).
         andThen (deref w1 this) (\<lambda>c1.
           let children = mAllChildren c1;
               w2 = store this (c1\<lparr>mAllChildren := []\<rparr>) w1
           in
             andThen (forEach (\<lambda>w' child. DieInternal n w' child) w2 children) (\<lambda>w3.
             andThen (deref w3 this) (\<lambda>c3.
               let w4 = store this (c3\<lparr>mParent := None, mState := Dead\<rparr>) w3
               in andThen (Release w4 this) (\<lambda>(w5, _). Inr w5))))))"

text \<open>\<open>nsTArray::RemoveElement\<close> on one of the two child arrays of the object at \<open>p\<close>.\<close>

definition RemoveElement_mAllChildren ::
  "addr \<Rightarrow> addr \<Rightarrow> NBrowsingContext world \<Rightarrow> fault + NBrowsingContext world" where
  "RemoveElement_mAllChildren p x w =
     andThen (deref w p) (\<lambda>pc.
       Inr (store p (pc\<lparr>mAllChildren := remove1 x (mAllChildren pc)\<rparr>) w))"

definition RemoveElement_mLiveChildren ::
  "addr \<Rightarrow> addr \<Rightarrow> NBrowsingContext world \<Rightarrow> fault + NBrowsingContext world" where
  "RemoveElement_mLiveChildren p x w =
     andThen (deref w p) (\<lambda>pc.
       Inr (store p (pc\<lparr>mLiveChildren := remove1 x (mLiveChildren pc)\<rparr>) w))"

text \<open>\<open>BrowsingContext::Die\<close>, \<open>NBrowsingContext.cpp\<close> lines 44-52.\<close>

definition Die ::
  "nat \<Rightarrow> NBrowsingContext world \<Rightarrow> addr \<Rightarrow> fault + NBrowsingContext world" where
  "Die fuel w this =
     andThen (deref w this) (\<lambda>c.
       if mState c = Dead then Inl MOZ_ASSERT_failure
       else (case mParent c of
               None \<Rightarrow> Inl NullDeref
             | Some p \<Rightarrow>
                 andThen (RemoveElement_mAllChildren p this w) (\<lambda>w1.
                 andThen (RemoveElement_mLiveChildren p this w1) (\<lambda>w2.
                   DieInternal fuel w2 this))))"

text \<open>The table read that \<open>BrowsingContext::Get\<close> performs.\<close>

definition lookup :: "'c world \<Rightarrow> 64 word \<Rightarrow> addr option" where
  "lookup w i = (case sBrowsingContexts w of None \<Rightarrow> None | Some t \<Rightarrow> t i)"

section \<open>\<open>mozilla::BrowsingContext\<close>: registry and child lists\<close>

text \<open>
  \<open>BrowsingContext.h\<close> and \<open>BrowsingContext.cpp\<close>, the second and third file of
  \<open>src/unnamed/part_000\<close>, whose line numbers are used below.  The class is an
  element of an intrusive linked list: \<open>link\<close> says which list the element is
  linked into, if any, and the lists themselves are the sequences \<open>mChildren\<close>
  and \<open>sRootBrowsingContexts\<close>.
\<close>

datatype list_ref = RootList | ChildrenOf addr

record BrowsingContext = BrowsingContext_base +
  mBrowsingContextId :: "64 word"
  mChildren :: "addr list"
  mDocShell :: "addr option"
  mName :: string
  refCount :: nat
  link :: "list_ref option"

definition isInList :: "BrowsingContext \<Rightarrow> bool" where
  "isInList c = (link c \<noteq> None)"

text \<open>
  Modelled from the spec: the macro
  \<open>NS_INLINE_DECL_CYCLE_COLLECTING_NATIVE_REFCOUNTING\<close>, which defines \<open>AddRef\<close> and
  \<open>Release\<close> of this class, is not part of the source.  The count is an integer
  that is at least 0, owned by the reference-counting protocol; taking a
  reference adds one.
\<close>

definition AddRef_cc :: "BrowsingContext world \<Rightarrow> addr \<Rightarrow> fault + BrowsingContext world" where
  "AddRef_cc w a =
     andThen (deref w a) (\<lambda>c. Inr (store a (c\<lparr>refCount := Suc (refCount c)\<rparr>) w))"

text \<open>
  Modelled from the spec: the same macro.  Dropping a reference subtracts one,
  and the count never goes below 0.  The destruction of a context whose count
  has reached zero is left to the protocol, as a step after the call that
  dropped the last reference; none of the calls below takes it.
\<close>

definition Release_cc :: "BrowsingContext world \<Rightarrow> addr \<Rightarrow> fault + BrowsingContext world" where
  "Release_cc w a =
     andThen (deref w a) (\<lambda>c.
       if refCount c = 0 then Inl DupRelease
       else Inr (store a (c\<lparr>refCount := refCount c - 1\<rparr>) w))"

text \<open>\<open>BrowsingContext::Init\<close>, lines 294-306.\<close>

definition Init :: "'c world \<Rightarrow> 'c world" where
  "Init w =
     (let w1 = (case sRootBrowsingContexts w of
                  None \<Rightarrow> w\<lparr>sRootBrowsingContexts := Some []\<rparr>
                | Some _ \<Rightarrow> w)
      in case sBrowsingContexts w1 of
           None \<Rightarrow> w1\<lparr>sBrowsingContexts := Some Map.empty\<rparr>
         | Some _ \<Rightarrow> w1)"

text \<open>\<open>BrowsingContext::Get\<close>, lines 308-313: the \<open>RefPtr\<close> takes a reference when
  the entry is there.\<close>

definition Get ::
  "BrowsingContext world \<Rightarrow> 64 word \<Rightarrow> fault + (BrowsingContext world \<times> addr option)" where
  "Get w aId =
     (case sBrowsingContexts w of
        None \<Rightarrow> Inl NullDeref
      | Some t \<Rightarrow>
          (case t aId of
             None \<Rightarrow> Inr (w, None)
           | Some a \<Rightarrow> andThen (AddRef_cc w a) (\<lambda>w1. Inr (w1, Some a))))"

text \<open>
  The constructor \<open>BrowsingContext(uint64_t, const nsAString&)\<close>, lines 333-339,
  on the storage \<open>this\<close> that \<open>operator new\<close> returned.
\<close>

definition BrowsingContext_ctor ::
  "BrowsingContext world \<Rightarrow> addr \<Rightarrow> 64 word \<Rightarrow> string \<Rightarrow> fault + BrowsingContext world" where
  "BrowsingContext_ctor w this aBrowsingContextId aName =
     (let w1 = store this
                 \<lparr>mParent = None, mBrowsingContextId = aBrowsingContextId, mChildren = [],
                  mDocShell = None, mName = aName, refCount = 0, link = None\<rparr> w
      in case sBrowsingContexts w1 of
           None \<Rightarrow> Inl NullDeref
         | Some t \<Rightarrow> Inr (w1\<lparr>sBrowsingContexts := Some (t(aBrowsingContextId \<mapsto> this))\<rparr>))"

text \<open>
  \<open>BrowsingContext::GetOrCreate\<close>, lines 315-324.  \<open>fresh\<close> is the address that
  \<open>new\<close> returns if it is called.
\<close>

definition GetOrCreate ::
  "BrowsingContext world \<Rightarrow> addr \<Rightarrow> 64 word \<Rightarrow> string
    \<Rightarrow> fault + (BrowsingContext world \<times> addr)" where
  "GetOrCreate w fresh aId aName =
     (case sBrowsingContexts w of
        None \<Rightarrow> Inl NullDeref
      | Some t \<Rightarrow>
          (case t aId of
             Some a \<Rightarrow> andThen (AddRef_cc w a) (\<lambda>w1. Inr (w1, a))
           | None \<Rightarrow>
               andThen (BrowsingContext_ctor w fresh aId aName) (\<lambda>w1.
               andThen (AddRef_cc w1 fresh) (\<lambda>w2. Inr (w2, fresh)))))"

text \<open>
  \<open>LinkedList::insertBack\<close> and \<open>LinkedListElement::remove\<close> for a list of
  \<open>RefPtr\<close>: the list holds a reference to each of its elements.
\<close>

definition insertBack ::
  "list_ref \<Rightarrow> addr \<Rightarrow> BrowsingContext world \<Rightarrow> fault + BrowsingContext world" where
  "insertBack l x w =
     andThen (deref w x) (\<lambda>c.
       if isInList c then Inl MOZ_ASSERT_failure
       else
         andThen
           (case l of
              RootList \<Rightarrow>
                (case sRootBrowsingContexts w of
                   None \<Rightarrow> Inl NullDeref
                 | Some r \<Rightarrow> Inr (w\<lparr>sRootBrowsingContexts := Some (r @ [x])\<rparr>))
            | ChildrenOf p \<Rightarrow>
                andThen (deref w p) (\<lambda>pc.
                  Inr (store p (pc\<lparr>mChildren := mChildren pc @ [x]\<rparr>) w)))
           (\<lambda>w1. andThen (deref w1 x) (\<lambda>c1.
              AddRef_cc (store x (c1\<lparr>link := Some l\<rparr>) w1) x)))"

definition remove ::
  "addr \<Rightarrow> BrowsingContext world \<Rightarrow> fault + BrowsingContext world" where
  "remove x w =
     andThen (deref w x) (\<lambda>c.
       case link c of
         None \<Rightarrow> Inl MOZ_ASSERT_failure
       | Some l \<Rightarrow>
           andThen
             (case l of
                RootList \<Rightarrow>
                  (case sRootBrowsingContexts w of
                     None \<Rightarrow> Inl UseAfterFree
                   | Some r \<Rightarrow> Inr (w\<lparr>sRootBrowsingContexts := Some (remove1 x r)\<rparr>))
              | ChildrenOf p \<Rightarrow>
                  andThen (deref w p) (\<lambda>pc.
                    Inr (store p (pc\<lparr>mChildren := remove1 x (mChildren pc)\<rparr>) w)))
             (\<lambda>w1. andThen (deref w1 x) (\<lambda>c1.
                Release_cc (store x (c1\<lparr>link := None\<rparr>) w1) x)))"

text \<open>\<open>cc->Send...\<close> in a content process, after the assertion on \<open>cc\<close>.\<close>

definition sendToParent :: "event \<Rightarrow> 'c world \<Rightarrow> fault + 'c world" where
  "sendToParent e w =
     (if \<not> contentChild w then Inl MOZ_DIAGNOSTIC_ASSERT_failure else Inr (emit e w))"

text \<open>
  \<open>mParent ? mParent->Id() : 0\<close>: \<open>mParent\<close> is a \<open>WeakPtr\<close>, which reads as
  null once its target is gone.
\<close>

definition weakParentId :: "BrowsingContext world \<Rightarrow> addr option \<Rightarrow> 64 word" where
  "weakParentId w parent =
     (case parent of
        None \<Rightarrow> 0
      | Some p \<Rightarrow> (case heap w p of None \<Rightarrow> 0 | Some pc \<Rightarrow> mBrowsingContextId pc))"

text \<open>\<open>BrowsingContext::Attach\<close>, lines 341-363.\<close>

definition Attach ::
  "BrowsingContext world \<Rightarrow> addr \<Rightarrow> addr option \<Rightarrow> fault + BrowsingContext world" where
  "Attach w this aParent =
     andThen (deref w this) (\<lambda>c.
       if isInList c then
         (case sBrowsingContexts w of
            None \<Rightarrow> Inl NullDeref
          | Some t \<Rightarrow>
              if t (mBrowsingContextId c) = None then Inl MOZ_DIAGNOSTIC_ASSERT_failure
              else Inr w)
       else
         andThen (insertBack (case aParent of None \<Rightarrow> RootList | Some p \<Rightarrow> ChildrenOf p)
                    this w) (\<lambda>w1.
         andThen (deref w1 this) (\<lambda>c1.
           let w2 = store this (c1\<lparr>mParent := aParent\<rparr>) w1
           in if \<not> XRE_IsContentProcess w2 then Inr w2
              else
                sendToParent
                  (SendAttachBrowsingContext (weakParentId w2 aParent)
                     (mBrowsingContextId c1) (mName c1))
                  w2)))"

text \<open>
  \<open>BrowsingContext::Detach\<close>, lines 365-383.  \<open>kungFuDeathGrip\<close> takes a reference
  on entry and drops it on each way out.
\<close>

definition Detach :: "BrowsingContext world \<Rightarrow> addr \<Rightarrow> fault + BrowsingContext world" where
  "Detach w this =
     andThen (AddRef_cc w this) (\<lambda>w1.
     andThen (deref w1 this) (\<lambda>c.
       if \<not> isInList c then Release_cc w1 this
       else
         andThen (remove this w1) (\<lambda>w2.
           if \<not> XRE_IsContentProcess w2 then Release_cc w2 this
           else
             andThen (sendToParent (SendDetachBrowsingContext (mBrowsingContextId c)) w2)
               (\<lambda>w3. Release_cc w3 this))))"



section \<open>\<open>RelatedContextSet\<close>: the table of known sets\<close>

text \<open>
  The constructor \<open>RelatedContextSet(uint64_t)\<close>, \<open>RelatedContextSet.cpp\<close> lines
  22-33, on the storage \<open>this\<close>.  A failed \<open>MOZ_RELEASE_ASSERT\<close> ends the process.
\<close>

definition RelatedContextSet_ctor :: "'c world \<Rightarrow> addr \<Rightarrow> 64 word \<Rightarrow> fault + 'c world" where
  "RelatedContextSet_ctor w this aUniqueID =
     (let w1 = w\<lparr>sets := (sets w)(this \<mapsto> \<lparr>mUniqueID = aUniqueID, mContexts = {}\<rparr>)\<rparr>;
          w2 = (case sKnownSets w1 of
                  None \<Rightarrow> w1\<lparr>sKnownSets := Some Map.empty\<rparr>
                | Some _ \<Rightarrow> w1)
      in case sKnownSets w2 of
           None \<Rightarrow> Inl NullDeref
         | Some t \<Rightarrow>
             if t aUniqueID \<noteq> None then Inl MOZ_RELEASE_ASSERT_failure
             else Inr (w2\<lparr>sKnownSets := Some (t(aUniqueID \<mapsto> this))\<rparr>))"

text \<open>
  The destructor, lines 35-52, followed by the release of the storage.
\<close>

definition RelatedContextSet_dtor :: "'c world \<Rightarrow> addr \<Rightarrow> fault + 'c world" where
  "RelatedContextSet_dtor w this =
     (case sets w this of
        None \<Rightarrow> Inl UseAfterFree
      | Some g \<Rightarrow>
          if mContexts g \<noteq> {} then Inl MOZ_DIAGNOSTIC_ASSERT_failure
          else
            andThen
              (case sKnownSets w of
                 None \<Rightarrow> Inr w
               | Some t \<Rightarrow>
                   if t (mUniqueID g) = None then Inl MOZ_RELEASE_ASSERT_failure
                   else Inr (w\<lparr>sKnownSets := Some (t(mUniqueID g := None))\<rparr>))
              (\<lambda>w1.
                 let w2 = (if sChromeSet w1 = Some this then w1\<lparr>sChromeSet := None\<rparr> else w1);
                     w3 = (if XRE_IsContentProcess w2 then emit (Unsubscribe (mUniqueID g)) w2
                           else w2)
                 in Inr (w3\<lparr>sets := (sets w3)(this := None)\<rparr>)))"

text \<open>
  Modelled from the spec: \<open>ClearOnShutdown\<close>, which the constructor and \<open>Init\<close>
  call on \<open>sKnownSets\<close> and \<open>sRootBrowsingContexts\<close>, is not part of the source.
  The spec's process-wide shutdown hook force-clears the registries at teardown:
  the two pointers become null.
\<close>

definition shutdown :: "'c world \<Rightarrow> 'c world" where
  "shutdown w = w\<lparr>sKnownSets := None, sRootBrowsingContexts := None\<rparr>"

section \<open>The subscription state of a group\<close>

text \<open>
  Modelled from the spec: \<open>RegisterContextRef\<close>, \<open>UnregisterContextRef\<close> and the
  handling of the acknowledgement are not part of the source, which only calls
  the first two.  A group has an identifier, an epoch (an integer), a count of
  contexts with a live reference and one of three states.
\<close>

datatype SubscriptionState = Subscribed | UnsubscribePending | Unsubscribed

record ContextGroup =
  groupId :: "64 word"
  epoch :: nat
  liveCount :: nat
  subscription :: SubscriptionState

text \<open>
  Modelled from the spec: a reference count went from 0 to 1.  If the group is in
  UnsubscribePending, the pending unsubscription is aborted by incrementing the
  epoch, and the group returns to Subscribed.
\<close>

definition onFirstRef :: "ContextGroup \<Rightarrow> ContextGroup" where
  "onFirstRef g =
     (let g1 = g\<lparr>liveCount := liveCount g + 1\<rparr>
      in if subscription g1 = UnsubscribePending
         then g1\<lparr>epoch := epoch g1 + 1, subscription := Subscribed\<rparr>
         else g1)"

text \<open>
  Modelled from the spec: the reference count of a context that is not Dead went
  from 1 to 0.  The group decrements its live count; when the live count reaches
  0 it goes to UnsubscribePending and sends (groupId, epoch) to the authority.
  The second component is what is sent.
\<close>

definition onLastRef :: "ContextGroup \<Rightarrow> ContextGroup \<times> (64 word \<times> nat) list" where
  "onLastRef g =
     (let g1 = g\<lparr>liveCount := liveCount g - 1\<rparr>
      in if liveCount g1 = 0
         then (g1\<lparr>subscription := UnsubscribePending\<rparr>, [(groupId g1, epoch g1)])
         else (g1, []))"

text \<open>
  Modelled from the spec: receipt of the acknowledgement (groupId, epoch, success)
  in the requesting process.  If success and the local epoch still matches, the
  group goes to Unsubscribed; otherwise the acknowledgement is discarded.
\<close>

definition onAcknowledgement :: "ContextGroup \<Rightarrow> nat \<Rightarrow> bool \<Rightarrow> ContextGroup" where
  "onAcknowledgement g ackEpoch success =
     (if success \<and> ackEpoch = epoch g then g\<lparr>subscription := Unsubscribed\<rparr> else g)"

section \<open>Observations and example states\<close>

text \<open>The sequence behind a list of children, if the list exists.\<close>

definition childList :: "BrowsingContext world \<Rightarrow> list_ref \<Rightarrow> addr list option" where
  "childList w l =
     (case l of
        RootList \<Rightarrow> sRootBrowsingContexts w
      | ChildrenOf p \<Rightarrow> map_option mChildren (heap w p))"

text \<open>The list \<open>Attach\<close> inserts into: \<open>aParent ? &aParent->mChildren : sRootBrowsingContexts.get()\<close>.\<close>

definition listOf :: "addr option \<Rightarrow> list_ref" where
  "listOf aParent = (case aParent of None \<Rightarrow> RootList | Some p \<Rightarrow> ChildrenOf p)"

text \<open>The table read on \<open>sKnownSets\<close>.\<close>

definition lookupSet :: "'c world \<Rightarrow> 64 word \<Rightarrow> addr option" where
  "lookupSet w i = (case sKnownSets w of None \<Rightarrow> None | Some t \<Rightarrow> t i)"

text \<open>A process that has not created anything yet.\<close>

definition world0 :: "GeckoProcessType \<Rightarrow> 'c world" where
  "world0 p =
     \<lparr>heap = Map.empty, sets = Map.empty, sRootBrowsingContexts = None,
      sBrowsingContexts = None, sKnownSets = None, sChromeSet = None,
      processType = p, mainThread = True, contentChild = (p = ContentProcess), trace = []\<rparr>"

text \<open>A \<open>dom::BrowsingContext\<close> with the given count, state, parent and children.\<close>

definition aContext ::
  "32 word \<Rightarrow> State \<Rightarrow> addr option \<Rightarrow> addr list \<Rightarrow> NBrowsingContext" where
  "aContext n st p cs =
     \<lparr>mParent = p, mRefCnt = n, mState = st,
      mContextSet = Some 10, mLiveChildren = cs, mAllChildren = cs\<rparr>"

text \<open>
  A parent process with one context set at address 10 and three contexts in a
  chain: 1 is the parent of 2, 2 is the parent of 3.  The state and the count
  of context 3 are the parameters.
\<close>

definition chain :: "State \<Rightarrow> 32 word \<Rightarrow> NBrowsingContext world" where
  "chain st n =
     (world0 ParentProcess)
       \<lparr>heap := [1 \<mapsto> aContext 1 Active None [2],
                 2 \<mapsto> aContext 1 Active (Some 1) [3],
                 3 \<mapsto> aContext n st (Some 2) []],
        sets := [10 \<mapsto> \<lparr>mUniqueID = 7, mContexts = {1, 2, 3}\<rparr>]\<rparr>"

text \<open>
  A content process after \<open>Init\<close> with one context at address 1, registered under
  its identifier and in no list.
\<close>

definition content1 :: "BrowsingContext world" where
  "content1 =
     (Init (world0 ContentProcess))
       \<lparr>heap := [1 \<mapsto> \<lparr>mParent = None, mBrowsingContextId = 1, mChildren = [],
                         mDocShell = None, mName = ''top'', refCount = 1, link = None\<rparr>],
        sBrowsingContexts := Some [1 \<mapsto> 1]\<rparr>"

text \<open>A process that knows one context set, identifier 7, at address 10.\<close>

definition oneSet :: "NBrowsingContext world" where
  "oneSet =
     (world0 ParentProcess)
       \<lparr>sets := [10 \<mapsto> \<lparr>mUniqueID = 7, mContexts = {}\<rparr>],
        sKnownSets := Some [7 \<mapsto> 10]\<rparr>"

text \<open>A group whose unsubscribe request, sent with epoch 1, is pending.\<close>

definition pendingGroup :: ContextGroup where
  "pendingGroup = \<lparr>groupId = 7, epoch = 1, liveCount = 0, subscription = UnsubscribePending\<rparr>"











section \<open>What the calls change\<close>





lemma word_succ_nonzero: "0 \<le> sint (x::32 word) \<Longrightarrow> x + 1 \<noteq> 0"
proof
  assume a: "0 \<le> sint x" and "x + 1 = 0"
  then have "x = -1" by (simp add: eq_neg_iff_add_eq_0)
  with a show False by simp
qed










lemmas chain_eval =
  chain_def aContext_def world0_def Die_def andThen_def deref_def store_def
  RemoveElement_mAllChildren_def RemoveElement_mLiveChildren_def AddRef_def Release_def
  notifySet_def emit_def delete_this_def lookup_def XRE_IsContentProcess_def
  eval_nat_numeral Let_def


section \<open>\<open>Die\<close> on a subtree\<close>














section \<open>The claims about \<open>Die\<close>\<close>

text \<open>
  C1.  The claim: for every context that is not Dead, \<open>Die\<close> sets every
  descendant to Dead, clears each descendant's parent pointer, and leaves no
  descendant in any live child collection.  On the chain 1, 2, 3 (all counts 1)
  \<open>Die\<close> on context 2 returns, context 3 is Dead with no parent, and context 3
  is still in \<open>mLiveChildren\<close> of context 2: \<open>DieInternal\<close> moves
  \<open>mAllChildren\<close> out and never touches \<open>mLiveChildren\<close>, while \<open>Die\<close> itself
  removes the context from both arrays of its parent.  (\<open>Die_tree\<close> has the
  general form: every context of a well-formed subtree that is not destroyed
  keeps its \<open>mLiveChildren\<close>.)
\<close>

theorem Die_leaves_live_children:
  "\<not> isl (Die 3 (chain Active 1) 2)
   \<and> map_option mState (heap (projr (Die 3 (chain Active 1) 2)) 3) = Some Dead
   \<and> map_option mParent (heap (projr (Die 3 (chain Active 1) 2)) 3) = Some None
   \<and> map_option mAllChildren (heap (projr (Die 3 (chain Active 1) 2)) 2) = Some []
   \<and> map_option mLiveChildren (heap (projr (Die 3 (chain Active 1) 2)) 2) = Some [3]
   \<and> map_option mLiveChildren (heap (projr (Die 3 (chain Active 1) 2)) 1) = Some []"
  by (simp add: chain_eval)

section \<open>The claims about reference counts\<close>

text \<open>
  C2.  For a context that is not Dead, \<open>AddRef\<close> stores the count plus one and
  calls \<open>RegisterContextRef\<close> on the owning set exactly when the count goes from
  0 to 1, \<open>Release\<close> stores the count minus one and calls
  \<open>UnregisterContextRef\<close> exactly when the count goes from 1 to 0, and no other
  \<open>AddRef\<close> or \<open>Release\<close> adds a call: of two calls in a row at most one does.
\<close>

theorem refcount_transitions_notify:
  assumes "heap w this = Some c" and "mState c \<noteq> Dead" and "mainThread w"
    and "mContextSet c = Some g" and "sets w g = Some gs"
  shows "(0 \<le> sint (mRefCnt c) \<longrightarrow>
            (\<exists>w'. AddRef w this = Inr (w', mRefCnt c + 1) \<and>
                  trace w' = trace w @ (if mRefCnt c = 0 then [RegisterContextRef g this] else [])
                  \<and> heap w' = (heap w)(this \<mapsto> c\<lparr>mRefCnt := mRefCnt c + 1\<rparr>)
                  \<and> sets w' = sets w \<and> mainThread w'))
       \<and> (0 < sint (mRefCnt c) \<longrightarrow>
            (\<exists>w'. Release w this = Inr (w', mRefCnt c - 1) \<and>
                  trace w' = trace w @ (if mRefCnt c = 1 then [UnregisterContextRef g this] else [])
                  \<and> heap w' = (heap w)(this \<mapsto> c\<lparr>mRefCnt := mRefCnt c - 1\<rparr>)
                  \<and> sets w' = sets w \<and> mainThread w'))
       \<and> (0 \<le> sint (mRefCnt c) \<and> 0 \<le> sint (mRefCnt c + 1) \<longrightarrow>
            (\<exists>w1 w2. AddRef w this = Inr (w1, mRefCnt c + 1)
                  \<and> AddRef w1 this = Inr (w2, mRefCnt c + 2)
                  \<and> trace w2 = trace w @ (if mRefCnt c = 0 then [RegisterContextRef g this] else [])
                  \<and> heap w2 = (heap w)(this \<mapsto> c\<lparr>mRefCnt := mRefCnt c + 2\<rparr>)))
       \<and> (0 < sint (mRefCnt c) \<and> 0 < sint (mRefCnt c - 1) \<longrightarrow>
            (\<exists>w1 w2. Release w this = Inr (w1, mRefCnt c - 1)
                  \<and> Release w1 this = Inr (w2, mRefCnt c - 2)
                  \<and> trace w2 = trace w @ (if mRefCnt c = 2 then [UnregisterContextRef g this] else [])
                  \<and> heap w2 = (heap w)(this \<mapsto> c\<lparr>mRefCnt := mRefCnt c - 2\<rparr>)))"
proof (intro conjI impI)
  assume "0 \<le> sint (mRefCnt c)"
  with assms show "\<exists>w'. AddRef w this = Inr (w', mRefCnt c + 1) \<and>
                  trace w' = trace w @ (if mRefCnt c = 0 then [RegisterContextRef g this] else [])
                  \<and> heap w' = (heap w)(this \<mapsto> c\<lparr>mRefCnt := mRefCnt c + 1\<rparr>)
                  \<and> sets w' = sets w \<and> mainThread w'"
    by (simp add: AddRef_def notifySet_def andThen_def emit_def Let_def)
next
  assume "0 < sint (mRefCnt c)"
  with assms show "\<exists>w'. Release w this = Inr (w', mRefCnt c - 1) \<and>
                  trace w' = trace w @ (if mRefCnt c = 1 then [UnregisterContextRef g this] else [])
                  \<and> heap w' = (heap w)(this \<mapsto> c\<lparr>mRefCnt := mRefCnt c - 1\<rparr>)
                  \<and> sets w' = sets w \<and> mainThread w'"
    by (simp add: Release_def notifySet_def andThen_def emit_def Let_def)
next
  assume a: "0 \<le> sint (mRefCnt c) \<and> 0 \<le> sint (mRefCnt c + 1)"
  then have nz: "mRefCnt c + 1 \<noteq> 0" "1 + mRefCnt c \<noteq> 0"
    using word_succ_nonzero[of "mRefCnt c"] by (simp_all add: add.commute)
  have two: "mRefCnt c + 1 + 1 = mRefCnt c + 2" by simp
  from assms a nz show "\<exists>w1 w2. AddRef w this = Inr (w1, mRefCnt c + 1)
                  \<and> AddRef w1 this = Inr (w2, mRefCnt c + 2)
                  \<and> trace w2 = trace w @ (if mRefCnt c = 0 then [RegisterContextRef g this] else [])
                  \<and> heap w2 = (heap w)(this \<mapsto> c\<lparr>mRefCnt := mRefCnt c + 2\<rparr>)"
    by (simp add: AddRef_def notifySet_def andThen_def emit_def Let_def two)
next
  assume a: "0 < sint (mRefCnt c) \<and> 0 < sint (mRefCnt c - 1)"
  then have nz: "mRefCnt c - 1 \<noteq> 0" by auto
  have two: "mRefCnt c - 1 - 1 = mRefCnt c - 2" by simp
  have eq: "(mRefCnt c - 2 = 0) = (mRefCnt c = 2)" by auto
  from assms a nz show "\<exists>w1 w2. Release w this = Inr (w1, mRefCnt c - 1)
                  \<and> Release w1 this = Inr (w2, mRefCnt c - 2)
                  \<and> trace w2 = trace w @ (if mRefCnt c = 2 then [UnregisterContextRef g this] else [])
                  \<and> heap w2 = (heap w)(this \<mapsto> c\<lparr>mRefCnt := mRefCnt c - 2\<rparr>)"
    by (simp add: Release_def notifySet_def andThen_def emit_def Let_def two eq)
qed

theorem refcount_transitions_notify_witness:
  "(\<exists>w'. AddRef (chain Active 0) 3 = Inr (w', 1) \<and> trace w' = [RegisterContextRef 10 3]
        \<and> map_option mRefCnt (heap w' 3) = Some 1)
   \<and> (\<exists>w1 w2. AddRef (chain Active 0) 3 = Inr (w1, 1) \<and> AddRef w1 3 = Inr (w2, 2)
        \<and> trace w2 = [RegisterContextRef 10 3] \<and> map_option mRefCnt (heap w2 3) = Some 2)
   \<and> (\<exists>w'. AddRef (chain Active 1) 3 = Inr (w', 2) \<and> trace w' = [])
   \<and> (\<exists>w'. Release (chain Active 1) 3 = Inr (w', 0) \<and> trace w' = [UnregisterContextRef 10 3]
        \<and> map_option mRefCnt (heap w' 3) = Some 0)"
proof -
  have h0: "heap (chain Active 0) 3 = Some (aContext 0 Active (Some 2) [])"
    and h1: "heap (chain Active 1) 3 = Some (aContext 1 Active (Some 2) [])"
    by (simp_all add: chain_def)
  have s: "sets (chain Active n) 10 = Some \<lparr>mUniqueID = 7, mContexts = {1, 2, 3}\<rparr>" for n
    by (simp add: chain_def)
  have t: "mainThread (chain Active n)" "trace (chain Active n) = []" for n
    by (simp_all add: chain_def world0_def)
  have c: "mState (aContext n Active (Some 2) []) \<noteq> Dead"
    "mContextSet (aContext n Active (Some 2) []) = Some 10"
    "mRefCnt (aContext n Active (Some 2) []) = n" for n
    by (simp_all add: aContext_def)
  from refcount_transitions_notify[OF h0 c(1) t(1) c(2) s]
  have A: "\<exists>w'. AddRef (chain Active 0) 3 = Inr (w', 1) \<and> trace w' = [RegisterContextRef 10 3]
        \<and> map_option mRefCnt (heap w' 3) = Some 1"
    and B: "\<exists>w1 w2. AddRef (chain Active 0) 3 = Inr (w1, 1) \<and> AddRef w1 3 = Inr (w2, 2)
        \<and> trace w2 = [RegisterContextRef 10 3] \<and> map_option mRefCnt (heap w2 3) = Some 2"
    by (auto simp add: c(3) t(2))
  from refcount_transitions_notify[OF h1 c(1) t(1) c(2) s]
  have C: "\<exists>w'. AddRef (chain Active 1) 3 = Inr (w', 2) \<and> trace w' = []"
    and D: "\<exists>w'. Release (chain Active 1) 3 = Inr (w', 0) \<and> trace w' = [UnregisterContextRef 10 3]
        \<and> map_option mRefCnt (heap w' 3) = Some 0"
    by (auto simp add: c(3) t(2))
  from A B C D show ?thesis by blast
qed




section \<open>The claims about context sets and groups\<close>

text \<open>
  C4.  Modelled from the spec.  Incrementing the epoch during a pending
  unsubscribe strictly increases it, and an acknowledgement that carries an epoch
  less than the current one is discarded: the group is unchanged.
\<close>

theorem epoch_monotone:
  "(subscription g = UnsubscribePending \<longrightarrow> epoch g < epoch (onFirstRef g))
   \<and> (ackEpoch < epoch g \<longrightarrow> onAcknowledgement g ackEpoch success = g)"
  by (simp add: onFirstRef_def onAcknowledgement_def Let_def)

theorem epoch_monotone_witness:
  "epoch pendingGroup < epoch (onFirstRef pendingGroup)
   \<and> onAcknowledgement (onFirstRef pendingGroup) 1 True = onFirstRef pendingGroup"
  using epoch_monotone[of pendingGroup 0 True]
        epoch_monotone[of "onFirstRef pendingGroup" 1 True]
  by (simp add: pendingGroup_def onFirstRef_def)

text \<open>
  C5, as amended.  When the destructor of a context set completes, the set of
  member contexts was empty and the storage is gone.  If the table of known sets
  still exists, the identifier of the set was in it until then and the destructor
  removes exactly that entry; if the table has been cleared already, the
  destructor removes nothing.
\<close>

theorem dtor_removes_entry:
  assumes "RelatedContextSet_dtor w this = Inr w'" and "sets w this = Some g"
  shows "mContexts g = {} \<and> sets w' this = None
       \<and> (case sKnownSets w of
            None \<Rightarrow> sKnownSets w' = None
          | Some t \<Rightarrow> t (mUniqueID g) \<noteq> None \<and> sKnownSets w' = Some (t(mUniqueID g := None)))"
  using assms
  by (auto simp: RelatedContextSet_dtor_def andThen_def Let_def emit_def
           split: option.splits if_splits)

theorem dtor_removes_entry_witness:
  "lookupSet oneSet 7 = Some 10
   \<and> sets (projr (RelatedContextSet_dtor oneSet 10)) 10 = None
   \<and> lookupSet (projr (RelatedContextSet_dtor oneSet 10)) 7 = None"
proof -
  have d: "RelatedContextSet_dtor oneSet 10 = Inr (projr (RelatedContextSet_dtor oneSet 10))"
    by (simp add: oneSet_def world0_def RelatedContextSet_dtor_def andThen_def
          XRE_IsContentProcess_def)
  have s: "sets oneSet 10 = Some \<lparr>mUniqueID = 7, mContexts = {}\<rparr>"
    by (simp add: oneSet_def)
  have k: "sKnownSets oneSet = Some [7 \<mapsto> 10]"
    by (simp add: oneSet_def)
  from dtor_removes_entry[OF d s] show ?thesis
    by (simp add: k lookupSet_def)
qed

text \<open>
  The claim as stated fails once the shutdown hook has run: the set with
  identifier 7 is registered by its constructor, it is still alive and no longer
  in any table after the hook, and its destructor completes without removing
  anything.
\<close>

theorem dtor_after_shutdown_counterexample:
  "RelatedContextSet_ctor (world0 ParentProcess) 10 7 = Inr oneSet
   \<and> lookupSet oneSet 7 = Some 10
   \<and> sets (shutdown oneSet) 10 \<noteq> None
   \<and> lookupSet (shutdown oneSet) 7 = None
   \<and> \<not> isl (RelatedContextSet_dtor (shutdown oneSet) 10)
   \<and> sKnownSets (projr (RelatedContextSet_dtor (shutdown oneSet) 10)) = sKnownSets (shutdown oneSet)"
  by (simp add: oneSet_def world0_def RelatedContextSet_ctor_def RelatedContextSet_dtor_def
        shutdown_def lookupSet_def andThen_def XRE_IsContentProcess_def)

text \<open>
  C6.  The constructor of a context set ends in the release assertion exactly
  when the identifier is already in the table of known sets; that is its only
  fault, and with a fresh identifier it returns with the set registered.
\<close>

theorem duplicate_id_aborts:
  "(RelatedContextSet_ctor w this i = Inl MOZ_RELEASE_ASSERT_failure
      \<longleftrightarrow> lookupSet w i \<noteq> None)
   \<and> (\<forall>e. RelatedContextSet_ctor w this i = Inl e \<longrightarrow> e = MOZ_RELEASE_ASSERT_failure)
   \<and> (lookupSet w i = None \<longrightarrow>
        (\<exists>w'. RelatedContextSet_ctor w this i = Inr w' \<and> lookupSet w' i = Some this
               \<and> sets w' this = Some \<lparr>mUniqueID = i, mContexts = {}\<rparr>))"
  by (auto simp: RelatedContextSet_ctor_def lookupSet_def Let_def split: option.splits)

theorem duplicate_id_aborts_witness:
  "RelatedContextSet_ctor oneSet 11 7 = Inl MOZ_RELEASE_ASSERT_failure
   \<and> (\<exists>w'. RelatedContextSet_ctor oneSet 11 8 = Inr w' \<and> lookupSet w' 8 = Some 11)"
proof -
  have "lookupSet oneSet 7 \<noteq> None" "lookupSet oneSet 8 = None"
    by (simp_all add: oneSet_def lookupSet_def)
  with duplicate_id_aborts[of oneSet 11 7] duplicate_id_aborts[of oneSet 11 8]
  show ?thesis by blast
qed

section \<open>The claims about the registry and the child lists\<close>

text \<open>
  C7.  For a context that is in no child list, \<open>Attach\<close> followed at once by
  \<open>Detach\<close> leaves every child list, that of the parent or the root list among
  them, as it was before the \<open>Attach\<close>.
\<close>

theorem attach_detach_restores:
  assumes "heap w this = Some c" and "link c = None"
    and "childList w (listOf aParent) = Some xs" and "this \<notin> set xs"
    and "XRE_IsContentProcess w \<longrightarrow> contentChild w"
  shows "\<exists>w1 w2. Attach w this aParent = Inr w1
           \<and> childList w1 (listOf aParent) = Some (xs @ [this])
           \<and> Detach w1 this = Inr w2 \<and> (\<forall>l. childList w2 l = childList w l)"
proof (cases aParent)
  case None
  then show ?thesis using assms
    by (auto simp add: Attach_def Detach_def insertBack_def remove_def AddRef_cc_def
        Release_cc_def andThen_def deref_def store_def isInList_def childList_def listOf_def
        Let_def sendToParent_def emit_def XRE_IsContentProcess_def remove1_append
        split: list_ref.splits)
next
  case (Some p)
  then obtain pc where pc: "heap w p = Some pc" "mChildren pc = xs" using assms
    by (auto simp: childList_def listOf_def)
  show ?thesis
  proof (cases "p = this")
    case True
    then show ?thesis using assms Some pc
      by (auto simp add: Attach_def Detach_def insertBack_def remove_def AddRef_cc_def
          Release_cc_def andThen_def deref_def store_def isInList_def childList_def listOf_def
          Let_def sendToParent_def emit_def XRE_IsContentProcess_def remove1_append
          split: list_ref.splits)
  next
    case False
    then show ?thesis using assms Some pc
      by (auto simp add: Attach_def Detach_def insertBack_def remove_def AddRef_cc_def
          Release_cc_def andThen_def deref_def store_def isInList_def childList_def listOf_def
          Let_def sendToParent_def emit_def XRE_IsContentProcess_def remove1_append
          split: list_ref.splits)
  qed
qed

theorem attach_detach_restores_witness:
  "\<exists>w1 w2. Attach content1 1 None = Inr w1 \<and> childList w1 RootList = Some [1]
      \<and> Detach w1 1 = Inr w2 \<and> (\<forall>l. childList w2 l = childList content1 l)"
proof -
  have h: "heap content1 1 =
      Some \<lparr>mParent = None, mBrowsingContextId = 1, mChildren = [], mDocShell = None,
            mName = ''top'', refCount = 1, link = None\<rparr>"
    by (simp add: content1_def)
  have l: "childList content1 (listOf None) = Some []"
    by (simp add: content1_def childList_def listOf_def Init_def world0_def)
  have p: "XRE_IsContentProcess content1 \<longrightarrow> contentChild content1"
    by (simp add: content1_def Init_def world0_def)
  from attach_detach_restores[OF h _ l _ p] show ?thesis
    by (simp add: listOf_def)
qed

text \<open>
  C8.  With the registry initialised and holding only contexts that exist, two
  calls of \<open>GetOrCreate\<close> with the same identifier, whatever the names, return
  the same context: after the first call, which changes the heap at that one
  address only, the identifier is registered for a context that is on the heap,
  either the one that was registered already, with
  one more reference, or the one the call constructed, with the first name and
  one reference; the second call finds that registration, constructs nothing
  and changes nothing but the count of that context, which gains one more
  reference.
\<close>

theorem GetOrCreate_twice:
  assumes "sBrowsingContexts w = Some t" and "\<forall>j a. t j = Some a \<longrightarrow> heap w a \<noteq> None"
  shows "\<exists>w1 w2 a c1. GetOrCreate w fresh1 i n1 = Inr (w1, a) \<and> lookup w1 i = Some a
            \<and> GetOrCreate w1 fresh2 i n2 = Inr (w2, a)
            \<and> heap w1 a = Some c1 \<and> 0 < refCount c1
            \<and> (\<forall>x. x \<noteq> a \<longrightarrow> heap w1 x = heap w x)
            \<and> (t i = None \<longrightarrow> a = fresh1
                  \<and> c1 = \<lparr>mParent = None, mBrowsingContextId = i, mChildren = [],
                          mDocShell = None, mName = n1, refCount = 1, link = None\<rparr>)
            \<and> (\<forall>a0. t i = Some a0 \<longrightarrow> a = a0
                  \<and> (\<exists>c0. heap w a0 = Some c0 \<and> c1 = c0\<lparr>refCount := Suc (refCount c0)\<rparr>))
            \<and> w2 = store a (c1\<lparr>refCount := Suc (refCount c1)\<rparr>) w1"
proof (cases "t i")
  case None
  then show ?thesis using assms
    by (simp add: GetOrCreate_def BrowsingContext_ctor_def AddRef_cc_def andThen_def deref_def
          store_def lookup_def Let_def)
next
  case (Some a)
  moreover from Some assms obtain c where "heap w a = Some c" by blast
  ultimately show ?thesis using assms
    by (simp add: GetOrCreate_def AddRef_cc_def andThen_def deref_def
          store_def lookup_def Let_def)
qed

theorem GetOrCreate_twice_witness:
  "\<exists>w1 w2. GetOrCreate content1 2 5 ''first'' = Inr (w1, 2) \<and> lookup w1 5 = Some 2
      \<and> GetOrCreate w1 3 5 ''second'' = Inr (w2, 2)
      \<and> map_option mName (heap w2 2) = Some ''first''
      \<and> map_option refCount (heap w2 2) = Some 2
      \<and> heap w2 3 = None"
proof -
  have r: "sBrowsingContexts content1 = Some [1 \<mapsto> 1]"
    by (simp add: content1_def)
  have h: "\<forall>j a. [1 \<mapsto> 1::addr] (j::64 word) = Some a \<longrightarrow> heap content1 a \<noteq> None"
    by (simp add: content1_def)
  have f: "heap content1 3 = None"
    by (simp add: content1_def Init_def world0_def)
  from GetOrCreate_twice[OF r h, of 2 5 "''first''" 3 "''second''"] f show ?thesis
    by (auto simp: store_def)
qed

section \<open>The implicit claims\<close>

text \<open>
  C9.  \<open>Die\<close> dereferences the parent pointer without a test: on a context that
  is not Dead and has no parent it is a null dereference, and whenever \<open>Die\<close>
  returns, the context had a parent that was on the heap.
\<close>

theorem Die_needs_parent:
  "(heap w this = Some c \<and> mState c \<noteq> Dead \<and> mParent c = None
      \<longrightarrow> Die fuel w this = Inl NullDeref)
   \<and> (Die fuel w this = Inr w'
      \<longrightarrow> (\<exists>c p pc. heap w this = Some c \<and> mParent c = Some p \<and> heap w p = Some pc))"
  by (auto simp: Die_def andThen_def deref_def RemoveElement_mAllChildren_def
           split: option.splits if_splits)

theorem Die_needs_parent_witness:
  "Die 3 (chain Active 1) 1 = Inl NullDeref
   \<and> (\<exists>c p pc. heap (chain Active 1) 2 = Some c \<and> mParent c = Some p
         \<and> heap (chain Active 1) p = Some pc)"
proof -
  have h: "heap (chain Active 1) 1 = Some (aContext 1 Active None [2])
      \<and> mState (aContext 1 Active None [2]) \<noteq> Dead
      \<and> mParent (aContext 1 Active None [2]) = None"
    by (simp add: chain_def aContext_def)
  have d: "Die 3 (chain Active 1) 2 = Inr (projr (Die 3 (chain Active 1) 2))"
    by (simp add: chain_eval)
  from Die_needs_parent[of "chain Active 1" 1 "aContext 1 Active None [2]" 3
         "chain Active 1"] h
  have "Die 3 (chain Active 1) 1 = Inl NullDeref" by blast
  moreover
  from Die_needs_parent[of "chain Active 1" 2 "aContext 1 Active None [2]" 3
         "projr (Die 3 (chain Active 1) 2)"] d
  have "\<exists>c p pc. heap (chain Active 1) 2 = Some c \<and> mParent c = Some p
         \<and> heap (chain Active 1) p = Some pc" by blast
  ultimately show ?thesis by simp
qed

text \<open>
  C10.  An \<open>AddRef\<close> that takes the count of a Dead context from 0 to 1 adds no
  call: the owning set is not told.
\<close>

theorem dead_AddRef_silent:
  assumes "heap w this = Some c" and "mState c = Dead" and "mainThread w" and "mRefCnt c = 0"
  shows "\<exists>w'. AddRef w this = Inr (w', 1) \<and> trace w' = trace w"
  using assms by (simp add: AddRef_def Let_def)

theorem dead_AddRef_silent_witness:
  "\<exists>w'. AddRef (chain Dead 0) 3 = Inr (w', 1) \<and> trace w' = []"
proof -
  have h: "heap (chain Dead 0) 3 = Some (aContext 0 Dead (Some 2) [])"
    by (simp add: chain_def)
  have "trace (chain Dead 0) = []" "mainThread (chain Dead 0)"
    by (simp_all add: chain_def world0_def)
  with dead_AddRef_silent[OF h] show ?thesis by (simp add: aContext_def)
qed

end
